theory Spec2Isabelle
  imports Main "HOL-Library.Word"
begin

section \<open>The 7-series SerDes lane of liteiclink (serwb/s7serdes.py)\<close>

text \<open>
  The source is a Migen hardware description: each class builds registers (\<open>self.sync\<close>),
  combinatorial wiring (\<open>self.comb\<close>) and primitive instances. The embedding keeps the
  constructors as functions that return an error or the constructed block, the registers as
  record fields, the \<open>sync\<close> statements as next-state functions and the \<open>comb\<close> statements as
  output functions of the current state and the inputs of the cycle. One list element of a
  run is one cycle of the \<open>sys\<close> clock.
\<close>

subsection \<open>Migen and LiteX building blocks the source relies on\<close>

datatype error = AssertionError | ValueError

text \<open>\<open>Signal(n, reset=v)\<close> with no driver: its \<open>n\<close> bits, index 0 the least significant.\<close>

definition Signal_reset :: "nat \<Rightarrow> nat \<Rightarrow> bool list" where
  "Signal_reset n v = map (bit v) [0..<n]"

text \<open>\<open>Replicate(v, n)\<close>: \<open>n\<close> copies of \<open>v\<close> concatenated.\<close>

definition Replicate :: "bool list \<Rightarrow> nat \<Rightarrow> bool list" where
  "Replicate v n = concat (replicate n v)"

text \<open>
  \<open>@ResetInserter()\<close> adds the input \<open>reset\<close> to the decorated module and appends, to the
  synchronous statements of the module and of all its submodules, an assignment of the reset
  value to every register under \<open>If(reset, ...)\<close>. Being last, it overrides the regular
  update of the same cycle.
\<close>

definition ResetInserter :: "bool \<Rightarrow> 'r \<Rightarrow> 'r \<Rightarrow> 'r" where
  "ResetInserter reset reset_value regular = (if reset then reset_value else regular)"

text \<open>
  \<open>stream.Converter(nbits_from, nbits_to)\<close> of LiteX, for \<open>nbits_from > nbits_to\<close> (the only
  case the source reaches, with 40 and a rate that passed the assertion): the constructor
  raises ValueError unless the ratio is an integer; the register \<open>mux\<close> selects the slice
  \<open>sink.data[mux*nbits_to:(mux+1)*nbits_to]\<close> as \<open>source.data\<close>, and advances, wrapping after
  the last slice, on every cycle with \<open>source.valid & source.ready\<close>, where
  \<open>source.valid = sink.valid\<close>.
\<close>

record Converter =
  nbits_to :: nat
  ratio :: nat
  mux :: nat

definition Converter_init :: "int \<Rightarrow> int \<Rightarrow> error + Converter" where
  "Converter_init n_from n_to =
     (if n_from mod n_to \<noteq> 0 then Inl ValueError
      else Inr \<lparr>nbits_to = nat n_to, ratio = nat (n_from div n_to), mux = 0\<rparr>)"

definition Converter_source_data :: "Converter \<Rightarrow> bool list \<Rightarrow> bool list" where
  "Converter_source_data c sink_data = take (nbits_to c) (drop (mux c * nbits_to c) sink_data)"

definition Converter_sync :: "Converter \<Rightarrow> bool \<Rightarrow> bool \<Rightarrow> Converter" where
  "Converter_sync c sink_valid source_ready =
     (if sink_valid \<and> source_ready
      then (if mux c = ratio c - 1 then c\<lparr>mux := 0\<rparr> else c\<lparr>mux := mux c + 1\<rparr>)
      else c)"

text \<open>
  \<open>TXDatapath\<close> and \<open>RXDatapath\<close> come from liteiclink.serwb.datapath, which is not among the
  sources here. Their constructors receive only the rate; the constructors below take the
  outcome of that call as a parameter (\<open>None\<close>: the datapath was built).
\<close>

type_synonym datapath_ctor = "int \<Rightarrow> error option"

definition datapath_built :: datapath_ctor where
  "datapath_built phy_dw = None"

subsection \<open>_S7SerdesClocking\<close>

datatype S7SerdesClocking = Master Converter | Slave | Undriven

definition S7SerdesClocking_init :: "string \<Rightarrow> int \<Rightarrow> error + S7SerdesClocking" where
  "S7SerdesClocking_init mode rate =
     (if rate \<notin> set [4, 6, 8] then Inl AssertionError
      else if mode = ''master'' then
        (case Converter_init 40 rate of Inl e \<Rightarrow> Inl e | Inr c \<Rightarrow> Inr (Master c))
      else if mode = ''slave'' then Inr Slave
      else Inr Undriven)"

text \<open>The three combinatorial assignments of master mode.\<close>

definition converter_sink_valid :: bool where
  "converter_sink_valid = True"

definition converter_source_ready :: bool where
  "converter_source_ready = True"

definition converter_sink_data :: "bool list" where
  "converter_sink_data = Replicate (Signal_reset 10 0b1111100000) 4"

text \<open>
  The inputs \<open>D1 .. D<rate>\<close> of the clock OSERDESE2 in one cycle: \<open>D(i+1)\<close> is
  \<open>converter.source.data[i]\<close>. The primitive shifts \<open>D1\<close> out first, so this list is also
  the serial output \<open>refclk\<close> of the cycle in the order of time. Outside master mode there
  is no generator.
\<close>

definition S7SerdesClocking_D :: "S7SerdesClocking \<Rightarrow> bool list" where
  "S7SerdesClocking_D k =
     (case k of Master c \<Rightarrow> Converter_source_data c converter_sink_data | _ \<Rightarrow> [])"

definition S7SerdesClocking_sync :: "S7SerdesClocking \<Rightarrow> S7SerdesClocking" where
  "S7SerdesClocking_sync k =
     (case k of
        Master c \<Rightarrow> Master (Converter_sync c converter_sink_valid converter_source_ready)
      | _ \<Rightarrow> k)"

definition S7SerdesClocking_reset :: "S7SerdesClocking \<Rightarrow> S7SerdesClocking" where
  "S7SerdesClocking_reset k = (case k of Master c \<Rightarrow> Master (c\<lparr>mux := 0\<rparr>) | _ \<Rightarrow> k)"

subsection \<open>_S7SerdesTX\<close>

record S7SerdesTX =
  tx_rate :: int

definition S7SerdesTX_init :: "datapath_ctor \<Rightarrow> int \<Rightarrow> error + S7SerdesTX" where
  "S7SerdesTX_init TXDatapath rate =
     (if rate \<notin> set [4, 6, 8] then Inl AssertionError
      else case TXDatapath rate of Some e \<Rightarrow> Inl e | None \<Rightarrow> Inr \<lparr>tx_rate = rate\<rparr>)"

text \<open>
  Inputs of the TX block in one cycle: its control and sink signals, and the signals the
  TX datapath drives back (\<open>datapath.sink.ready\<close>, \<open>datapath.source.valid\<close>,
  \<open>datapath.source.data\<close>). Words are numbers; a \<open>Signal(rate)\<close> keeps the low \<open>rate\<close> bits.
\<close>

record tx_in =
  idle :: bool
  comma :: bool
  sink_valid :: bool
  sink_data :: nat
  datapath_sink_ready :: bool
  datapath_source_valid :: bool
  datapath_source_data :: nat

record tx_out =
  sink_ready :: bool
  datapath_sink_valid :: bool
  datapath_sink_data :: nat
  datapath_source_ready :: bool
  datapath_idle :: bool
  datapath_comma :: bool
  data :: nat

definition S7SerdesTX_comb :: "S7SerdesTX \<Rightarrow> tx_in \<Rightarrow> tx_out" where
  "S7SerdesTX_comb t i =
     \<lparr>sink_ready = datapath_sink_ready i,
      datapath_sink_valid = sink_valid i,
      datapath_sink_data = sink_data i,
      datapath_source_ready = True,
      datapath_idle = idle i,
      datapath_comma = comma i,
      data = datapath_source_data i mod 2 ^ nat (tx_rate t)\<rparr>"

subsection \<open>_S7SerdesRX\<close>

text \<open>The register \<open>_shift = Signal(3)\<close> is the field \<open>shift_reg\<close>; its reset value is 0.\<close>

record S7SerdesRX =
  rx_rate :: int
  shift_reg :: "3 word"

definition S7SerdesRX_init :: "datapath_ctor \<Rightarrow> int \<Rightarrow> error + S7SerdesRX" where
  "S7SerdesRX_init RXDatapath rate =
     (if rate \<notin> set [4, 6, 8] then Inl AssertionError
      else case RXDatapath rate of
             Some e \<Rightarrow> Inl e
           | None \<Rightarrow> Inr \<lparr>rx_rate = rate, shift_reg = 0\<rparr>)"

text \<open>\<open>self.sync += If(self.shift, _shift.eq(_shift + 1))\<close>\<close>

definition S7SerdesRX_sync :: "S7SerdesRX \<Rightarrow> bool \<Rightarrow> S7SerdesRX" where
  "S7SerdesRX_sync r shift = (if shift then r\<lparr>shift_reg := shift_reg r + 1\<rparr> else r)"

definition S7SerdesRX_reset :: "S7SerdesRX \<Rightarrow> S7SerdesRX" where
  "S7SerdesRX_reset r = r\<lparr>shift_reg := 0\<rparr>"

text \<open>
  The control signals the RX block drives in one cycle, given the request \<open>self.shift\<close>:
  the port \<open>BITSLIP\<close> of the ISERDESE2 instance (\<open>i_BITSLIP = self.shift\<close>), and
  \<open>datapath.shift\<close> and \<open>datapath.sink.valid\<close> of the RX datapath. The data words and the
  delay controls pass through the block unchanged and are left out.
\<close>

record rx_out =
  BITSLIP :: bool
  datapath_shift :: bool
  rx_datapath_sink_valid :: bool

definition S7SerdesRX_comb :: "S7SerdesRX \<Rightarrow> bool \<Rightarrow> rx_out" where
  "S7SerdesRX_comb r shift =
     \<lparr>BITSLIP = shift,
      datapath_shift = (shift \<and> shift_reg r = 0b111),
      rx_datapath_sink_valid = True\<rparr>"

subsection \<open>S7Serdes\<close>

record S7Serdes =
  clocking :: S7SerdesClocking
  tx :: S7SerdesTX
  rx :: S7SerdesRX

definition S7Serdes_init ::
  "datapath_ctor \<Rightarrow> datapath_ctor \<Rightarrow> string \<Rightarrow> int \<Rightarrow> error + S7Serdes" where
  "S7Serdes_init TXDatapath RXDatapath mode rate =
     (case S7SerdesClocking_init mode rate of
        Inl e \<Rightarrow> Inl e
      | Inr k \<Rightarrow>
         (case S7SerdesTX_init TXDatapath rate of
            Inl e \<Rightarrow> Inl e
          | Inr t \<Rightarrow>
             (case S7SerdesRX_init RXDatapath rate of
                Inl e \<Rightarrow> Inl e
              | Inr r \<Rightarrow> Inr \<lparr>clocking = k, tx = t, rx = r\<rparr>)))"

text \<open>The inputs of the lane in one cycle; \<open>reset\<close> is the input the decorator adds.\<close>

record lane_in =
  reset :: bool
  shift :: bool
  tx_i :: tx_in

record lane_out =
  refclk :: "bool list"
  tx_o :: tx_out
  rx_o :: rx_out

definition S7Serdes_comb :: "S7Serdes \<Rightarrow> lane_in \<Rightarrow> lane_out" where
  "S7Serdes_comb s i =
     \<lparr>refclk = S7SerdesClocking_D (clocking s),
      tx_o = S7SerdesTX_comb (tx s) (tx_i i),
      rx_o = S7SerdesRX_comb (rx s) (shift i)\<rparr>"

definition S7Serdes_sync :: "S7Serdes \<Rightarrow> lane_in \<Rightarrow> S7Serdes" where
  "S7Serdes_sync s i =
     s\<lparr>clocking := ResetInserter (reset i) (S7SerdesClocking_reset (clocking s))
                     (S7SerdesClocking_sync (clocking s)),
       rx := ResetInserter (reset i) (S7SerdesRX_reset (rx s))
               (S7SerdesRX_sync (rx s) (shift i))\<rparr>"

text \<open>
  The registers of the source are the converter's \<open>mux\<close> and the RX block's \<open>_shift\<close>; the
  TX block has none. Each takes its regular update, or its reset value in a cycle with
  \<open>reset\<close> asserted. The primitive instances take \<open>ResetSignal("sys")\<close>, the reset of the
  clock domain, which is not this input.
\<close>

text \<open>A run: the outputs of the successive cycles, and the state the run ends in.\<close>

fun S7Serdes_run :: "S7Serdes \<Rightarrow> lane_in list \<Rightarrow> lane_out list" where
  "S7Serdes_run s [] = []"
| "S7Serdes_run s (i # ins) = S7Serdes_comb s i # S7Serdes_run (S7Serdes_sync s i) ins"

fun S7Serdes_after :: "S7Serdes \<Rightarrow> lane_in list \<Rightarrow> S7Serdes" where
  "S7Serdes_after s [] = s"
| "S7Serdes_after s (i # ins) = S7Serdes_after (S7Serdes_sync s i) ins"

text \<open>The paced slip signal of a cycle, read off the outputs of the lane.\<close>

definition slip_pulse :: "lane_out \<Rightarrow> bool" where
  "slip_pulse out = datapath_shift (rx_o out)"

text \<open>The slip input of the deserializer primitive in a cycle, read off the outputs.\<close>

definition bitslip :: "lane_out \<Rightarrow> bool" where
  "bitslip out = BITSLIP (rx_o out)"

text \<open>
  Modelled from the spec: the ISERDESE2 primitive is hardware, with no code in the
  repository. The spec gives its contract: asserting \<open>bit_slip\<close> for one sample-clock cycle
  rotates the capture window by exactly one bit position. The window position is a number
  below the width; \<open>ISERDESE2_window\<close> follows it along the outputs of a run.
\<close>

definition ISERDESE2_bitslip :: "nat \<Rightarrow> nat \<Rightarrow> bool \<Rightarrow> nat" where
  "ISERDESE2_bitslip width w b = (if b then (w + 1) mod width else w)"

fun ISERDESE2_window :: "nat \<Rightarrow> nat \<Rightarrow> lane_out list \<Rightarrow> nat" where
  "ISERDESE2_window width w [] = w"
| "ISERDESE2_window width w (out # outs) =
     ISERDESE2_window width (ISERDESE2_bitslip width w (BITSLIP (rx_o out))) outs"

text \<open>
  The state a cycle with \<open>reset\<close> asserted leaves behind: every register of the lane at its
  reset value, the configuration as it was.
\<close>

definition S7Serdes_reset :: "S7Serdes \<Rightarrow> S7Serdes" where
  "S7Serdes_reset s =
     s\<lparr>clocking := S7SerdesClocking_reset (clocking s), rx := S7SerdesRX_reset (rx s)\<rparr>"

text \<open>
  The serial output \<open>refclk\<close> in the order of time: of the clocking block on its own, which
  has no reset input, over \<open>n\<close> cycles; and of a run of the lane.
\<close>

fun S7SerdesClocking_refclk :: "S7SerdesClocking \<Rightarrow> nat \<Rightarrow> bool list" where
  "S7SerdesClocking_refclk k 0 = []"
| "S7SerdesClocking_refclk k (Suc n) =
     S7SerdesClocking_D k @ S7SerdesClocking_refclk (S7SerdesClocking_sync k) n"

definition refclk_stream :: "lane_out list \<Rightarrow> bool list" where
  "refclk_stream outs = concat (map refclk outs)"

subsection \<open>Concrete lanes and inputs\<close>

text \<open>
  The lane \<open>S7Serdes(pads, "master", 8)\<close> just after construction, and three input cycles:
  a slip request, no request, and the reset input asserted. The TX side is left quiet.
\<close>

definition master8 :: S7Serdes where
  "master8 =
     \<lparr>clocking = Master \<lparr>nbits_to = 8, ratio = 5, mux = 0\<rparr>,
      tx = \<lparr>tx_rate = 8\<rparr>,
      rx = \<lparr>rx_rate = 8, shift_reg = 0\<rparr>\<rparr>"

definition quiet :: tx_in where
  "quiet =
     \<lparr>idle = False, comma = False, sink_valid = False, sink_data = 0,
      datapath_sink_ready = False, datapath_source_valid = False, datapath_source_data = 0\<rparr>"

definition request :: lane_in where
  "request = \<lparr>reset = False, shift = True, tx_i = quiet\<rparr>"

definition no_request :: lane_in where
  "no_request = \<lparr>reset = False, shift = False, tx_i = quiet\<rparr>"

definition link_reset :: lane_in where
  "link_reset = \<lparr>reset = True, shift = False, tx_i = quiet\<rparr>"

text \<open>
  The lane \<open>S7Serdes(pads, "loopback", 8)\<close>, with a mode that is neither of the two the source
  tests for; and a cycle in which the TX datapath offers the word \<open>0xA5\<close>.
\<close>

definition undriven8 :: S7Serdes where
  "undriven8 =
     \<lparr>clocking = Undriven, tx = \<lparr>tx_rate = 8\<rparr>, rx = \<lparr>rx_rate = 8, shift_reg = 0\<rparr>\<rparr>"

definition word_offered :: lane_in where
  "word_offered =
     \<lparr>reset = False, shift = False,
      tx_i = quiet\<lparr>datapath_source_valid := True, datapath_source_data := 0xA5\<rparr>\<rparr>"

section \<open>Basic facts about runs\<close>

lemma init_master8: "S7Serdes_init datapath_built datapath_built ''master'' 8 = Inr master8"
  by (simp add: S7Serdes_init_def S7SerdesClocking_init_def S7SerdesTX_init_def
      S7SerdesRX_init_def Converter_init_def datapath_built_def master8_def)

lemma sync_shift_reg:
  "shift_reg (rx (S7Serdes_sync s i)) =
     (if reset i then 0 else if shift i then shift_reg (rx s) + 1 else shift_reg (rx s))"
  by (simp add: S7Serdes_sync_def ResetInserter_def S7SerdesRX_sync_def S7SerdesRX_reset_def)

lemma pulse_iff:
  "slip_pulse (S7Serdes_comb s i) \<longleftrightarrow> shift i \<and> shift_reg (rx s) = 7"
  by (simp add: slip_pulse_def S7Serdes_comb_def S7SerdesRX_comb_def)

lemma rx_comb:
  "BITSLIP (rx_o (S7Serdes_comb s i)) = shift i"
  "datapath_shift (rx_o (S7Serdes_comb s i)) = (shift i \<and> shift_reg (rx s) = 7)"
  by (simp_all add: S7Serdes_comb_def S7SerdesRX_comb_def)

lemma bitslip_comb: "bitslip (S7Serdes_comb s i) = shift i"
  by (simp add: bitslip_def rx_comb)

lemma run_nth:
  "k < length ins \<Longrightarrow>
   S7Serdes_run s ins ! k = S7Serdes_comb (S7Serdes_after s (take k ins)) (ins ! k)"
  by (induction ins arbitrary: s k) (auto simp: nth_Cons take_Cons split: nat.splits)

lemma length_run: "length (S7Serdes_run s ins) = length ins"
  by (induction ins arbitrary: s) auto

lemma take_run: "take n (S7Serdes_run s ins) = S7Serdes_run s (take n ins)"
  by (induction ins arbitrary: s n) (auto simp: take_Cons split: nat.splits)

lemma drop_run:
  "drop n (S7Serdes_run s ins) = S7Serdes_run (S7Serdes_after s (take n ins)) (drop n ins)"
  by (induction ins arbitrary: s n) (auto simp: drop_Cons take_Cons split: nat.splits)

section \<open>The phase counter and the paced slip pulse\<close>

lemma shift_reg_sync_le:
  "unat (shift_reg (rx (S7Serdes_sync s i))) \<le> Suc (unat (shift_reg (rx s)))"
  by (simp add: sync_shift_reg unat_word_ariths)

text \<open>A counter that is \<open>n\<close> steps or more away from 7 gives no pulse in the next \<open>n\<close> cycles.\<close>

lemma no_pulse_below:
  "unat (shift_reg (rx s)) + length ins \<le> 7 \<Longrightarrow> filter slip_pulse (S7Serdes_run s ins) = []"
proof (induction ins arbitrary: s)
  case Nil
  then show ?case by simp
next
  case (Cons i ins)
  have "unat (shift_reg (rx (S7Serdes_sync s i))) + length ins \<le> 7"
    using Cons.prems shift_reg_sync_le [of s i] by simp
  then have rest: "filter slip_pulse (S7Serdes_run (S7Serdes_sync s i) ins) = []"
    by (rule Cons.IH)
  have "shift_reg (rx s) \<noteq> 7"
    using Cons.prems by auto
  then show ?case using rest by (simp add: pulse_iff)
qed

lemma window_from_start:
  "length (filter slip_pulse (S7Serdes_run s (take 8 ins))) \<le> 1"
proof (induction ins arbitrary: s)
  case Nil
  then show ?case by simp
next
  case (Cons i ins)
  have t8: "take 8 (i # ins) = i # take 7 ins"
    by (simp add: take_Cons')
  show ?case
  proof (cases "slip_pulse (S7Serdes_comb s i)")
    case True
    then have "shift_reg (rx (S7Serdes_sync s i)) = 0"
      by (simp add: pulse_iff sync_shift_reg)
    then have "filter slip_pulse (S7Serdes_run (S7Serdes_sync s i) (take 7 ins)) = []"
      by (intro no_pulse_below) simp
    then show ?thesis using True by (simp add: t8)
  next
    case False
    have "S7Serdes_run (S7Serdes_sync s i) (take 7 ins) =
          take 7 (S7Serdes_run (S7Serdes_sync s i) (take 8 ins))"
      by (simp add: take_run)
    then have "length (filter slip_pulse (S7Serdes_run (S7Serdes_sync s i) (take 7 ins)))
      \<le> length (filter slip_pulse (S7Serdes_run (S7Serdes_sync s i) (take 8 ins)))"
      by (metis append_take_drop_id filter_append length_append le_add1)
    also have "\<dots> \<le> 1" by (rule Cons.IH)
    finally show ?thesis using False by (simp add: t8)
  qed
qed

text \<open>
  C1. In every run of the lane, from any state (so for every rate the lane can have, and
  whatever the reset input does), any 8 consecutive cycles contain at most one cycle with
  the paced slip signal \<open>datapath.shift\<close> asserted; and a run whose request line is low
  throughout has no such cycle.
\<close>

theorem slip_pulse_at_most_once_in_8_cycles:
  "length (filter slip_pulse (take 8 (drop k (S7Serdes_run s ins)))) \<le> 1 \<and>
   ((\<forall>i \<in> set ins. \<not> shift i) \<longrightarrow> (\<forall>out \<in> set (S7Serdes_run s ins). \<not> slip_pulse out))"
proof
  have "take 8 (drop k (S7Serdes_run s ins)) =
        S7Serdes_run (S7Serdes_after s (take k ins)) (take 8 (drop k ins))"
    by (simp add: drop_run take_run)
  then show "length (filter slip_pulse (take 8 (drop k (S7Serdes_run s ins)))) \<le> 1"
    using window_from_start [of "S7Serdes_after s (take k ins)" "drop k ins"]
    by simp
next
  show "(\<forall>i \<in> set ins. \<not> shift i) \<longrightarrow> (\<forall>out \<in> set (S7Serdes_run s ins). \<not> slip_pulse out)"
  proof (intro impI ballI)
    fix out
    assume low: "\<forall>i \<in> set ins. \<not> shift i" and "out \<in> set (S7Serdes_run s ins)"
    then obtain k where k: "k < length ins" and out: "out = S7Serdes_run s ins ! k"
      by (auto simp: in_set_conv_nth length_run)
    from k low have "\<not> shift (ins ! k)" by simp
    with k out show "\<not> slip_pulse out"
      by (simp add: run_nth pulse_iff)
  qed
qed

text \<open>
  The theorem at a request held for 12 cycles (the window of cycles 3 to 10 holds the one
  pulse of cycle 7) and at three cycles without request.
\<close>

theorem slip_pulse_at_most_once_in_8_cycles_witness:
  "length (filter slip_pulse (take 8 (drop 3 (S7Serdes_run master8
      [request, request, request, request, request, request,
       request, request, request, request, request, request])))) \<le> 1 \<and>
   slip_pulse (S7Serdes_run master8
      [request, request, request, request, request, request,
       request, request, request, request, request, request] ! 7) \<and>
   \<not> shift no_request \<and>
   map slip_pulse (S7Serdes_run master8 [no_request, no_request, no_request]) =
     [False, False, False]"
  using slip_pulse_at_most_once_in_8_cycles [of 3 master8
      "[request, request, request, request, request, request,
        request, request, request, request, request, request]"]
    slip_pulse_at_most_once_in_8_cycles [of 0 master8 "[no_request, no_request, no_request]"]
  by (simp add: pulse_iff sync_shift_reg master8_def request_def no_request_def)

lemma list9:
  assumes "length xs = 9"
  obtains a b c d e f g h j where "xs = [a, b, c, d, e, f, g, h, j]"
proof -
  from assms have "length xs = Suc (Suc (Suc (Suc (Suc (Suc (Suc (Suc (Suc 0))))))))"
    by simp
  then show ?thesis using that
    by (auto simp: length_Suc_conv)
qed

text \<open>
  C3. From phase counter 0, with the request held high for 9 cycles (and the reset input
  low), the paced slip signal is asserted in exactly one of the 9 cycles, the 8th (index 7);
  the counter reads 7 in that cycle and reads 0 again in the 9th cycle (index 8).
\<close>

theorem held_request_9_cycles:
  assumes "shift_reg (rx s) = 0" and "length ins = 9"
    and "\<forall>i \<in> set ins. shift i \<and> \<not> reset i"
  shows "map slip_pulse (S7Serdes_run s ins) =
           [False, False, False, False, False, False, False, True, False] \<and>
         shift_reg (rx (S7Serdes_after s (take 7 ins))) = 7 \<and>
         shift_reg (rx (S7Serdes_after s (take 8 ins))) = 0"
proof -
  from assms(2) obtain a b c d e f g h j where ins: "ins = [a, b, c, d, e, f, g, h, j]"
    by (rule list9)
  with assms(1,3) show ?thesis
    by (simp add: pulse_iff sync_shift_reg)
qed

theorem held_request_9_cycles_witness:
  "shift_reg (rx master8) = 0 \<and> shift request \<and> \<not> reset request \<and>
   map slip_pulse (S7Serdes_run master8
     [request, request, request, request, request, request, request, request, request]) =
     [False, False, False, False, False, False, False, True, False] \<and>
   shift_reg (rx (S7Serdes_after master8
     [request, request, request, request, request, request, request, request])) = 0"
  using held_request_9_cycles [of master8
      "[request, request, request, request, request, request, request, request, request]"]
  by (simp add: master8_def request_def)

section \<open>Which slip signal is paced\<close>

text \<open>
  C2, as stated, fails: the signal wired to the deserializer primitive is \<open>BITSLIP\<close>, and
  in the first cycle of a request, with the counter at 0, it is asserted.
\<close>

theorem deserializer_slip_not_gated:
  "BITSLIP (rx_o (S7Serdes_comb master8 request)) \<and>
   \<not> (shift request \<and> shift_reg (rx master8) = 7)"
  by (simp add: rx_comb master8_def request_def)

text \<open>
  C2, amended. The paced signal is the one forwarded to the RX datapath: in every cycle of
  every run, \<open>datapath.shift\<close> is asserted if and only if the request is asserted and the
  phase counter reads 7 in that cycle; the port \<open>BITSLIP\<close> of the deserializer primitive
  carries the request itself.
\<close>

theorem datapath_shift_is_paced:
  assumes "k < length ins"
  shows "datapath_shift (rx_o (S7Serdes_run s ins ! k)) =
           (shift (ins ! k) \<and> shift_reg (rx (S7Serdes_after s (take k ins))) = 7) \<and>
         BITSLIP (rx_o (S7Serdes_run s ins ! k)) = shift (ins ! k)"
  using assms by (simp add: run_nth rx_comb)

theorem datapath_shift_is_paced_witness:
  "(1::nat) < length [request, request] \<and>
   datapath_shift (rx_o (S7Serdes_run master8 [request, request] ! 1)) = False \<and>
   BITSLIP (rx_o (S7Serdes_run master8 [request, request] ! 1)) = True"
  using datapath_shift_is_paced [of 1 "[request, request]" master8]
  by (simp add: sync_shift_reg master8_def request_def)

section \<open>What the phase counter counts\<close>

lemma w7: "(w :: 3 word) = 7 \<longleftrightarrow> unat w = 7"
  by (simp add: word_unat_eq_iff)

lemma unat_phase_less: "unat (w :: 3 word) < 8"
  using unsigned_less [of w, where 'a = nat] by simp

lemma counter_counts:
  "\<forall>i \<in> set ins. \<not> reset i \<Longrightarrow>
   shift_reg (rx (S7Serdes_after s ins)) = shift_reg (rx s) + of_nat (length (filter shift ins))"
proof (induction ins arbitrary: s)
  case Nil
  show ?case by simp
next
  case (Cons i ins)
  from Cons.prems have nr: "\<not> reset i" and rest: "\<forall>i \<in> set ins. \<not> reset i" by simp_all
  have "shift_reg (rx (S7Serdes_after (S7Serdes_sync s i) ins)) =
        shift_reg (rx (S7Serdes_sync s i)) + of_nat (length (filter shift ins))"
    using rest by (rule Cons.IH)
  then show ?case using nr by (simp add: sync_shift_reg)
qed

lemma phase_unat:
  assumes "\<forall>i \<in> set ins. \<not> reset i"
  shows "unat (shift_reg (rx (S7Serdes_after s ins))) =
         (unat (shift_reg (rx s)) + length (filter shift ins)) mod 8"
proof -
  have "unat (shift_reg (rx s) + of_nat (length (filter shift ins))) =
        (unat (shift_reg (rx s)) + length (filter shift ins)) mod 8"
    by (simp add: unat_word_ariths unat_of_nat mod_simps)
  then show ?thesis using counter_counts [OF assms, of s] by simp
qed

text \<open>
  C4, as stated, fails: after one request cycle the counter reads 1, and a following cycle
  with the request low leaves it at 1, not at 0.
\<close>

theorem phase_counter_not_held_at_0:
  "\<not> shift no_request \<and>
   shift_reg (rx (S7Serdes_after master8 [request])) = 1 \<and>
   shift_reg (rx (S7Serdes_after master8 [request, no_request])) = 1"
  by (simp add: sync_shift_reg master8_def request_def no_request_def)

text \<open>
  C4, amended. In a cycle without reset the phase counter increments by one, modulo 8, when
  the request is high, and keeps its current value, whatever it is, when the request is
  low; a cycle with reset sets it to 0. So over a run without reset the counter advances by
  the number of cycles with the request high, modulo 8.
\<close>

theorem phase_counter_counts_requests:
  "shift_reg (rx (S7Serdes_sync s i)) =
     (if reset i then 0 else if shift i then shift_reg (rx s) + 1 else shift_reg (rx s)) \<and>
   unat (shift_reg (rx s) + 1) = (unat (shift_reg (rx s)) + 1) mod 8 \<and>
   ((\<forall>i \<in> set ins. \<not> reset i) \<longrightarrow>
      unat (shift_reg (rx (S7Serdes_after s ins))) =
        (unat (shift_reg (rx s)) + length (filter shift ins)) mod 8)"
  by (simp add: sync_shift_reg phase_unat unat_word_ariths)

theorem phase_counter_counts_requests_witness:
  "shift_reg (rx (S7Serdes_sync master8 request)) = 1 \<and>
   shift_reg (rx (S7Serdes_sync master8 no_request)) = 0 \<and>
   \<not> reset request \<and> \<not> reset no_request \<and>
   unat (shift_reg (rx (S7Serdes_after master8 [request, no_request, request]))) = 2"
  using phase_counter_counts_requests [of master8 request "[request, no_request, request]"]
    phase_counter_counts_requests [of master8 no_request "[]"]
  by (simp add: master8_def request_def no_request_def)

section \<open>The raw request at the deserializer primitive\<close>

lemma held_pulse_count:
  "\<forall>i \<in> set ins. shift i \<and> \<not> reset i \<Longrightarrow>
   length (filter slip_pulse (S7Serdes_run s ins)) = (unat (shift_reg (rx s)) + length ins) div 8"
proof (induction ins arbitrary: s)
  case Nil
  show ?case using unat_phase_less [of "shift_reg (rx s)"] by simp
next
  case (Cons i ins)
  from Cons.prems have i: "shift i" "\<not> reset i"
    and rest: "\<forall>i \<in> set ins. shift i \<and> \<not> reset i" by simp_all
  let ?c = "unat (shift_reg (rx s))"
  have c8: "?c < 8" by (rule unat_phase_less)
  have next_c: "unat (shift_reg (rx (S7Serdes_sync s i))) = (?c + 1) mod 8"
    using i by (simp add: sync_shift_reg unat_word_ariths)
  have IH: "length (filter slip_pulse (S7Serdes_run (S7Serdes_sync s i) ins)) =
        ((?c + 1) mod 8 + length ins) div 8"
    using Cons.IH [OF rest, of "S7Serdes_sync s i"] next_c by simp
  show ?case
  proof (cases "?c = 7")
    case True
    then have "slip_pulse (S7Serdes_comb s i)" using i by (simp add: pulse_iff w7)
    then show ?thesis using IH True by simp
  next
    case False
    then have "\<not> slip_pulse (S7Serdes_comb s i)" by (simp add: pulse_iff w7)
    moreover have "(?c + 1) mod 8 = ?c + 1" using c8 False by simp
    ultimately show ?thesis using IH by simp
  qed
qed

lemma held_bitslip_count:
  "\<forall>i \<in> set ins. shift i \<Longrightarrow> filter bitslip (S7Serdes_run s ins) = S7Serdes_run s ins"
  by (induction ins arbitrary: s) (simp_all add: bitslip_comb)

lemma held_window:
  "\<forall>i \<in> set ins. shift i \<Longrightarrow> w < width \<Longrightarrow>
   ISERDESE2_window width w (S7Serdes_run s ins) = (w + length ins) mod width"
proof (induction ins arbitrary: s w)
  case Nil
  then show ?case by simp
next
  case (Cons i ins)
  from Cons.prems have i: "shift i" and rest: "\<forall>i \<in> set ins. shift i" by simp_all
  have b: "BITSLIP (rx_o (S7Serdes_comb s i))"
    using i by (simp add: rx_comb)
  have lt: "(w + 1) mod width < width" using Cons.prems(2) by simp
  have "ISERDESE2_window width ((w + 1) mod width) (S7Serdes_run (S7Serdes_sync s i) ins) =
        ((w + 1) mod width + length ins) mod width"
    using rest lt by (rule Cons.IH)
  then show ?case using b by (simp add: ISERDESE2_bitslip_def mod_simps)
qed

text \<open>
  C10. In every cycle of every run the port \<open>BITSLIP\<close> of the ISERDESE2 instance carries the
  external request as it is, whatever the phase counter reads, while \<open>datapath.shift\<close> is
  the request gated by the counter. So over a request held for \<open>n\<close> cycles the primitive
  sees \<open>BITSLIP\<close> asserted in all \<open>n\<close> cycles, and its capture window, which moves one
  position per asserted cycle, has moved \<open>n\<close> positions; the datapath sees a pulse only
  each time the counter passes 7.
\<close>

theorem bitslip_is_raw_request:
  "(k < length ins \<longrightarrow>
      BITSLIP (rx_o (S7Serdes_run s ins ! k)) = shift (ins ! k) \<and>
      datapath_shift (rx_o (S7Serdes_run s ins ! k)) =
        (shift (ins ! k) \<and> shift_reg (rx (S7Serdes_after s (take k ins))) = 7)) \<and>
   ((\<forall>i \<in> set ins. shift i) \<longrightarrow>
      length (filter bitslip (S7Serdes_run s ins)) = length ins \<and>
      (w < width \<longrightarrow>
         ISERDESE2_window width w (S7Serdes_run s ins) = (w + length ins) mod width)) \<and>
   ((\<forall>i \<in> set ins. shift i \<and> \<not> reset i) \<longrightarrow>
      length (filter slip_pulse (S7Serdes_run s ins)) =
        (unat (shift_reg (rx s)) + length ins) div 8)"
proof (intro conjI impI)
  assume k: "k < length ins"
  show "BITSLIP (rx_o (S7Serdes_run s ins ! k)) = shift (ins ! k)"
    using k by (simp add: run_nth rx_comb)
  show "datapath_shift (rx_o (S7Serdes_run s ins ! k)) =
        (shift (ins ! k) \<and> shift_reg (rx (S7Serdes_after s (take k ins))) = 7)"
    using k by (simp add: run_nth rx_comb)
next
  assume "\<forall>i \<in> set ins. shift i"
  then show "length (filter bitslip (S7Serdes_run s ins)) = length ins"
    by (simp add: held_bitslip_count length_run)
next
  assume "\<forall>i \<in> set ins. shift i" and "w < width"
  then show "ISERDESE2_window width w (S7Serdes_run s ins) = (w + length ins) mod width"
    by (rule held_window)
next
  assume "\<forall>i \<in> set ins. shift i \<and> \<not> reset i"
  then show "length (filter slip_pulse (S7Serdes_run s ins)) =
        (unat (shift_reg (rx s)) + length ins) div 8"
    by (rule held_pulse_count)
qed

theorem bitslip_is_raw_request_witness:
  "(2::nat) < length [request, request, request] \<and>
   BITSLIP (rx_o (S7Serdes_run master8 [request, request, request] ! 2)) \<and>
   \<not> datapath_shift (rx_o (S7Serdes_run master8 [request, request, request] ! 2)) \<and>
   shift request \<and> \<not> reset request \<and> (0::nat) < 8 \<and>
   length (filter bitslip (S7Serdes_run master8 [request, request, request])) = 3 \<and>
   ISERDESE2_window 8 0 (S7Serdes_run master8 [request, request, request]) = 3 \<and>
   length (filter slip_pulse (S7Serdes_run master8 [request, request, request])) = 0"
  using bitslip_is_raw_request [of 2 "[request, request, request]" master8 0 8]
  by (simp add: rx_comb bitslip_comb pulse_iff ISERDESE2_bitslip_def sync_shift_reg
      master8_def request_def)

section \<open>Reset\<close>

lemma sync_reset: "reset i \<Longrightarrow> S7Serdes_sync s i = S7Serdes_reset s"
  by (simp add: S7Serdes_sync_def S7Serdes_reset_def ResetInserter_def)

lemma clocking_reset_sync:
  "S7SerdesClocking_reset (S7SerdesClocking_sync k) = S7SerdesClocking_reset k"
  by (cases k)
    (simp_all add: S7SerdesClocking_reset_def S7SerdesClocking_sync_def Converter_sync_def)

lemma clocking_reset_reset:
  "S7SerdesClocking_reset (S7SerdesClocking_reset k) = S7SerdesClocking_reset k"
  by (cases k) (simp_all add: S7SerdesClocking_reset_def)

lemma rx_reset_sync: "S7SerdesRX_reset (S7SerdesRX_sync r b) = S7SerdesRX_reset r"
  by (simp add: S7SerdesRX_reset_def S7SerdesRX_sync_def)

lemma rx_reset_reset: "S7SerdesRX_reset (S7SerdesRX_reset r) = S7SerdesRX_reset r"
  by (simp add: S7SerdesRX_reset_def)

lemma reset_sync: "S7Serdes_reset (S7Serdes_sync s i) = S7Serdes_reset s"
  by (simp add: S7Serdes_sync_def S7Serdes_reset_def ResetInserter_def clocking_reset_sync
      clocking_reset_reset rx_reset_sync rx_reset_reset)

lemma reset_after: "S7Serdes_reset (S7Serdes_after s ins) = S7Serdes_reset s"
  by (induction ins arbitrary: s) (simp_all add: reset_sync)

text \<open>A lane comes out of its constructor with every register at its reset value.\<close>

lemma init_is_reset:
  assumes "S7Serdes_init TXD RXD mode rate = Inr s0"
  shows "S7Serdes_reset s0 = s0"
  using assms
  by (auto simp: S7Serdes_init_def S7SerdesClocking_init_def S7SerdesTX_init_def
      S7SerdesRX_init_def Converter_init_def S7Serdes_reset_def S7SerdesClocking_reset_def
      S7SerdesRX_reset_def split: if_splits option.splits sum.splits)

lemma sync_after_reset:
  assumes "S7Serdes_init TXD RXD mode rate = Inr s0" and "reset r"
  shows "S7Serdes_sync (S7Serdes_after s0 pre) r = s0"
proof -
  have "S7Serdes_sync (S7Serdes_after s0 pre) r = S7Serdes_reset (S7Serdes_after s0 pre)"
    using assms(2) by (rule sync_reset)
  also have "\<dots> = S7Serdes_reset s0" by (rule reset_after)
  also have "\<dots> = s0" using assms(1) by (rule init_is_reset)
  finally show ?thesis .
qed

text \<open>
  C7, as stated, fails: the deserializer primitive takes the reset of the clock domain
  (\<open>i_RST = ResetSignal("sys")\<close>), not the link reset, and its port \<open>BITSLIP\<close> has seen the
  earlier requests. After three requests and a reset the registers of the lane are those of
  the fresh instance, but the capture window stands at 3, where the fresh instance's stands
  at 0: the words the lane delivers from then on are not those of a fresh instance.
\<close>

theorem reset_leaves_capture_window:
  "S7Serdes_sync (S7Serdes_after master8 [request, request, request]) link_reset = master8 \<and>
   ISERDESE2_window 8 0
     (S7Serdes_run master8 [request, request, request, link_reset, no_request]) = 3 \<and>
   ISERDESE2_window 8 0 (S7Serdes_run master8 [no_request]) = 0"
proof -
  have "reset link_reset" by (simp add: link_reset_def)
  with init_master8
  have "S7Serdes_sync (S7Serdes_after master8 [request, request, request]) link_reset = master8"
    by (rule sync_after_reset)
  moreover have "ISERDESE2_window 8 0
     (S7Serdes_run master8 [request, request, request, link_reset, no_request]) = 3"
    by (simp add: rx_comb ISERDESE2_bitslip_def request_def link_reset_def no_request_def)
  moreover have "ISERDESE2_window 8 0 (S7Serdes_run master8 [no_request]) = 0"
    by (simp add: rx_comb ISERDESE2_bitslip_def no_request_def)
  ultimately show ?thesis by simp
qed

text \<open>
  C7, amended. Take a lane as constructed and run it on any inputs \<open>pre\<close>. A cycle with the
  reset input asserted then leaves the phase counter at 0 and the registers of the lane's
  own logic (the phase counter and the position of the clock converter) in the state of the
  fresh instance; so on any further inputs (the request, the reset and the signals the TX
  datapath feeds in) the signals that logic drives are those of the fresh instance on the
  same inputs. Nothing is said of the state kept outside that logic, in the hardware
  primitives and in the datapaths.
\<close>

theorem reset_gives_fresh_instance:
  assumes "S7Serdes_init TXD RXD mode rate = Inr s0" and "reset r"
  shows "shift_reg (rx (S7Serdes_sync (S7Serdes_after s0 pre) r)) = 0 \<and>
         S7Serdes_sync (S7Serdes_after s0 pre) r = s0 \<and>
         S7Serdes_run (S7Serdes_sync (S7Serdes_after s0 pre) r) ins = S7Serdes_run s0 ins"
proof -
  have fresh: "S7Serdes_sync (S7Serdes_after s0 pre) r = s0"
    using assms by (rule sync_after_reset)
  moreover have "shift_reg (rx (S7Serdes_sync (S7Serdes_after s0 pre) r)) = 0"
    using assms(2) by (simp add: sync_shift_reg)
  ultimately show ?thesis by simp
qed

theorem reset_gives_fresh_instance_witness:
  "S7Serdes_init datapath_built datapath_built ''master'' 8 = Inr master8 \<and> reset link_reset \<and>
   shift_reg (rx (S7Serdes_after master8 [request, request, request])) = 3 \<and>
   S7Serdes_sync (S7Serdes_after master8 [request, request, request]) link_reset = master8 \<and>
   S7Serdes_run (S7Serdes_sync (S7Serdes_after master8 [request, request, request]) link_reset)
     [request] = S7Serdes_run master8 [request]"
proof -
  have r: "reset link_reset" by (simp add: link_reset_def)
  have c: "shift_reg (rx (S7Serdes_after master8 [request, request, request])) = 3"
    by (simp add: sync_shift_reg master8_def request_def)
  from reset_gives_fresh_instance
    [OF init_master8 r, of "[request, request, request]" "[request]"] r c init_master8
  show ?thesis by simp
qed

section \<open>The TX datapath is never stalled\<close>

lemma tx_after: "tx (S7Serdes_after s ins) = tx s"
  by (induction ins arbitrary: s) (simp_all add: S7Serdes_sync_def)

text \<open>
  C9. In every cycle of every run, reset or not, the TX block holds \<open>datapath.source.ready\<close>
  at 1: the word stream the TX datapath (the encoder side) produces is always accepted.
  The word of the cycle is what the block puts on the inputs of the serializer primitive in
  that same cycle, so a word of \<open>rate\<close> bits is passed on as it is.
\<close>

theorem tx_datapath_source_always_ready:
  "k < length ins \<longrightarrow>
     datapath_source_ready (tx_o (S7Serdes_run s ins ! k)) \<and>
     (datapath_source_data (tx_i (ins ! k)) < 2 ^ nat (tx_rate (tx s)) \<longrightarrow>
        data (tx_o (S7Serdes_run s ins ! k)) = datapath_source_data (tx_i (ins ! k)))"
  by (simp add: run_nth S7Serdes_comb_def S7SerdesTX_comb_def tx_after)

theorem tx_datapath_source_always_ready_witness:
  "(1::nat) < length [link_reset, word_offered] \<and>
   datapath_source_ready (tx_o (S7Serdes_run master8 [link_reset, word_offered] ! 1)) \<and>
   datapath_source_data (tx_i word_offered) < 2 ^ nat (tx_rate (tx master8)) \<and>
   data (tx_o (S7Serdes_run master8 [link_reset, word_offered] ! 1)) = 0xA5"
  using tx_datapath_source_always_ready [of 1 "[link_reset, word_offered]" master8]
  by (simp add: master8_def word_offered_def quiet_def)

section \<open>Construction\<close>

text \<open>
  C6, as stated, fails for the mode: with a supported rate, a mode that is neither
  \<open>"master"\<close> nor \<open>"slave"\<close> raises nothing. The clocking block is built with neither branch
  taken, and so is the lane (given datapaths that construct at this rate).
\<close>

theorem unsupported_mode_constructs:
  "S7SerdesClocking_init ''loopback'' 8 = Inr Undriven \<and>
   S7Serdes_init datapath_built datapath_built ''loopback'' 8 = Inr undriven8"
  by (simp add: S7Serdes_init_def S7SerdesClocking_init_def S7SerdesTX_init_def
      S7SerdesRX_init_def datapath_built_def undriven8_def)

text \<open>
  C6, amended. A rate outside 4, 6, 8 fails the assertion in the constructor of each of the
  three blocks, whatever the mode and the datapaths; the constructor of the lane raises it
  from the first of them, and no lane exists.
\<close>

theorem unsupported_rate_is_fatal:
  assumes "rate \<notin> {4, 6, 8}"
  shows "S7SerdesClocking_init mode rate = Inl AssertionError \<and>
         S7SerdesTX_init TXD rate = Inl AssertionError \<and>
         S7SerdesRX_init RXD rate = Inl AssertionError \<and>
         S7Serdes_init TXD RXD mode rate = Inl AssertionError"
  using assms
  by (simp add: S7Serdes_init_def S7SerdesClocking_init_def S7SerdesTX_init_def
      S7SerdesRX_init_def)

theorem unsupported_rate_is_fatal_witness:
  "(5::int) \<notin> {4, 6, 8} \<and>
   S7Serdes_init datapath_built datapath_built ''master'' 5 = Inl AssertionError \<and>
   S7Serdes_init datapath_built datapath_built ''loopback'' 16 = Inl AssertionError"
  using unsupported_rate_is_fatal [of 5 "''master''" datapath_built datapath_built]
    unsupported_rate_is_fatal [of 16 "''loopback''" datapath_built datapath_built]
  by simp

section \<open>The reference clock of master mode\<close>

lemma training_bits:
  "Signal_reset 10 0b1111100000 =
     [False, False, False, False, False, True, True, True, True, True]"
  by (simp add: Signal_reset_def upt_rec bit_numeral_simps bit_Suc_0_iff)

lemma Replicate_nth:
  "k < n * length v \<Longrightarrow> Replicate v n ! k = v ! (k mod length v)"
proof (induction n arbitrary: k)
  case 0
  then show ?case by simp
next
  case (Suc n)
  show ?case
  proof (cases "k < length v")
    case True
    then show ?thesis by (simp add: Replicate_def nth_append)
  next
    case False
    then have "k - length v < n * length v" using Suc.prems by simp
    then have "Replicate v n ! (k - length v) = v ! ((k - length v) mod length v)"
      by (rule Suc.IH)
    moreover have "(k - length v) mod length v = k mod length v"
      using False by (simp add: le_mod_geq)
    ultimately show ?thesis using False by (simp add: Replicate_def nth_append)
  qed
qed

lemma length_Replicate: "length (Replicate v n) = n * length v"
  by (induction n) (simp_all add: Replicate_def)

lemma length_sink_data: "length converter_sink_data = 40"
  by (simp add: converter_sink_data_def length_Replicate Signal_reset_def)

lemma sink_data_nth:
  "k < 40 \<Longrightarrow> converter_sink_data ! k = Signal_reset 10 0b1111100000 ! (k mod 10)"
  using Replicate_nth [of k 4 "Signal_reset 10 0b1111100000"]
  by (simp add: converter_sink_data_def Signal_reset_def)

text \<open>
  The converters the source can build have slices that tile the 40-bit frame:
  \<open>nbits_to * ratio = 40\<close>, with \<open>mux\<close> below the ratio.
\<close>

lemma slice_fits:
  assumes "nbits_to c * ratio c = 40" and "mux c < ratio c"
  shows "mux c * nbits_to c + nbits_to c \<le> 40"
proof -
  have "Suc (mux c) \<le> ratio c" using assms(2) by simp
  then have "Suc (mux c) * nbits_to c \<le> ratio c * nbits_to c"
    by (rule mult_le_mono1)
  then show ?thesis using assms(1) by (simp add: mult.commute)
qed

lemma D_length:
  assumes "nbits_to c * ratio c = 40" and "mux c < ratio c"
  shows "length (S7SerdesClocking_D (Master c)) = nbits_to c"
  using slice_fits [OF assms]
  by (simp add: S7SerdesClocking_D_def Converter_source_data_def length_sink_data)

lemma D_nth:
  assumes "nbits_to c * ratio c = 40" and "mux c < ratio c" and "j < nbits_to c"
  shows "S7SerdesClocking_D (Master c) ! j = converter_sink_data ! (mux c * nbits_to c + j)"
  using slice_fits [OF assms(1,2)] assms(3)
  by (simp add: S7SerdesClocking_D_def Converter_source_data_def length_sink_data)

lemma sync_Master:
  "S7SerdesClocking_sync (Master c) =
     Master (c\<lparr>mux := (if mux c = ratio c - 1 then 0 else mux c + 1)\<rparr>)"
  by (simp add: S7SerdesClocking_sync_def Converter_sync_def converter_sink_valid_def
      converter_source_ready_def)

lemma next_offset:
  assumes "nbits_to c * ratio c = 40" and "mux c < ratio c"
  shows "(if mux c = ratio c - 1 then 0 else mux c + 1) * nbits_to c =
         (mux c * nbits_to c + nbits_to c) mod 40"
proof (cases "mux c = ratio c - 1")
  case True
  then have "Suc (mux c) = ratio c" using assms(2) by simp
  then have "Suc (mux c) * nbits_to c = 40" using assms(1) by (simp only: mult.commute)
  then have "mux c * nbits_to c + nbits_to c = 40" by simp
  then show ?thesis using True by simp
next
  case False
  then have lt: "Suc (mux c) < ratio c" using assms(2) by simp
  have pos: "0 < nbits_to c" using assms(1) by (cases "nbits_to c") simp_all
  from lt pos have "Suc (mux c) * nbits_to c < ratio c * nbits_to c"
    by (rule mult_less_mono1)
  then have "mux c * nbits_to c + nbits_to c < 40" using assms(1) by (simp add: mult.commute)
  then show ?thesis using False by simp
qed

lemma refclk_length:
  assumes "nbits_to c * ratio c = 40" and "mux c < ratio c"
  shows "length (S7SerdesClocking_refclk (Master c) n) = nbits_to c * n"
  using assms
proof (induction n arbitrary: c)
  case 0
  show ?case by simp
next
  case (Suc n)
  let ?c' = "c\<lparr>mux := (if mux c = ratio c - 1 then 0 else mux c + 1)\<rparr>"
  have "nbits_to ?c' * ratio ?c' = 40" "mux ?c' < ratio ?c'"
    using Suc.prems by auto
  then have "length (S7SerdesClocking_refclk (Master ?c') n) = nbits_to ?c' * n"
    by (rule Suc.IH)
  then show ?case using D_length [OF Suc.prems] by (simp add: sync_Master)
qed

text \<open>Bit \<open>j\<close> of the serial output is bit \<open>mux * nbits_to + j\<close> of the frame, read cyclically.\<close>

lemma refclk_nth:
  assumes "nbits_to c * ratio c = 40" and "mux c < ratio c" and "j < nbits_to c * n"
  shows "S7SerdesClocking_refclk (Master c) n ! j =
         converter_sink_data ! ((mux c * nbits_to c + j) mod 40)"
  using assms
proof (induction n arbitrary: c j)
  case 0
  then show ?case by simp
next
  case (Suc n)
  let ?c' = "c\<lparr>mux := (if mux c = ratio c - 1 then 0 else mux c + 1)\<rparr>"
  have inv': "nbits_to ?c' * ratio ?c' = 40" "mux ?c' < ratio ?c'"
    using Suc.prems(1,2) by auto
  have len: "length (S7SerdesClocking_D (Master c)) = nbits_to c"
    using Suc.prems(1,2) by (rule D_length)
  show ?case
  proof (cases "j < nbits_to c")
    case True
    have "mux c * nbits_to c + j < 40"
      using slice_fits [OF Suc.prems(1,2)] True by simp
    then show ?thesis
      using True len D_nth [OF Suc.prems(1,2) True] by (simp add: nth_append)
  next
    case False
    then have j': "j - nbits_to c < nbits_to ?c' * n" using Suc.prems(3) by simp
    have "S7SerdesClocking_refclk (Master ?c') n ! (j - nbits_to c) =
          converter_sink_data ! ((mux ?c' * nbits_to ?c' + (j - nbits_to c)) mod 40)"
      using inv' j' by (rule Suc.IH)
    moreover have "(mux ?c' * nbits_to ?c' + (j - nbits_to c)) mod 40 =
          (mux c * nbits_to c + j) mod 40"
    proof -
      have "mux ?c' * nbits_to ?c' = (mux c * nbits_to c + nbits_to c) mod 40"
        using next_offset [OF Suc.prems(1,2)] by simp
      then have "(mux ?c' * nbits_to ?c' + (j - nbits_to c)) mod 40 =
            ((mux c * nbits_to c + nbits_to c) + (j - nbits_to c)) mod 40"
        by (simp add: mod_add_left_eq)
      also have "(mux c * nbits_to c + nbits_to c) + (j - nbits_to c) = mux c * nbits_to c + j"
        using False by simp
      finally show ?thesis .
    qed
    ultimately show ?thesis using False len by (simp add: nth_append sync_Master)
  qed
qed

lemma refclk_training:
  assumes "nbits_to c * ratio c = 40" and "mux c = 0" and "j < nbits_to c * n"
  shows "S7SerdesClocking_refclk (Master c) n ! j = Signal_reset 10 0b1111100000 ! (j mod 10)"
proof -
  have r: "0 < ratio c" using assms(1) by (cases "ratio c") simp_all
  have "S7SerdesClocking_refclk (Master c) n ! j = converter_sink_data ! (j mod 40)"
    using refclk_nth [of c j n] assms r by simp
  also have "\<dots> = Signal_reset 10 0b1111100000 ! ((j mod 40) mod 10)"
    by (rule sink_data_nth) simp
  also have "(j mod 40) mod 10 = j mod 10"
    by (simp add: mod_mod_cancel)
  finally show ?thesis .
qed

lemma init_clocking_master8:
  "S7SerdesClocking_init ''master'' 8 = Inr (clocking master8)"
  by (simp add: S7SerdesClocking_init_def Converter_init_def master8_def)

text \<open>A window as long as the period, cut anywhere from a periodic list, is the period rotated.\<close>

lemma window_rotated:
  assumes nth: "\<And>j. j < length xs \<Longrightarrow> xs ! j = p ! (j mod length p)"
    and fits: "j + length p \<le> length xs"
  shows "take (length p) (drop j xs) = rotate (j mod length p) p"
proof (rule nth_equalityI)
  show "length (take (length p) (drop j xs)) = length (rotate (j mod length p) p)"
    using fits by simp
next
  fix i
  assume "i < length (take (length p) (drop j xs))"
  then have i: "i < length p" by simp
  then have "take (length p) (drop j xs) ! i = xs ! (j + i)"
    using fits by simp
  also have "\<dots> = p ! ((j + i) mod length p)"
    using i fits by (intro nth) simp
  also have "\<dots> = rotate (j mod length p) p ! i"
    using i by (simp add: nth_rotate mod_simps add.commute)
  finally show "take (length p) (drop j xs) ! i = rotate (j mod length p) p ! i" .
qed

text \<open>
  The clocking block of \<open>_S7SerdesClocking(pads, "master", 8)\<close> on its own, where no
  reset input exists: 8 bits per cycle, bit \<open>j\<close> of the serial output being bit \<open>j mod 10\<close>
  of the pattern, so that 10 consecutive bits are the pattern rotated by their offset.
\<close>

lemma clocking8_refclk_pattern:
  "S7SerdesClocking_init ''master'' 8 = Inr (clocking master8) \<and>
   converter_sink_valid \<and> converter_source_ready \<and>
   converter_sink_data = Replicate (Signal_reset 10 0b1111100000) 4 \<and>
   length (S7SerdesClocking_refclk (clocking master8) n) = 8 * n \<and>
   (j < 8 * n \<longrightarrow>
      S7SerdesClocking_refclk (clocking master8) n ! j =
        Signal_reset 10 0b1111100000 ! (j mod 10)) \<and>
   (j + 10 \<le> 8 * n \<longrightarrow>
      take 10 (drop j (S7SerdesClocking_refclk (clocking master8) n)) =
        rotate (j mod 10) (Signal_reset 10 0b1111100000)) \<and>
   (10 * w + 10 \<le> 8 * n \<longrightarrow>
      take 10 (drop (10 * w) (S7SerdesClocking_refclk (clocking master8) n)) =
        Signal_reset 10 0b1111100000)"
proof -
  let ?c = "\<lparr>nbits_to = 8, ratio = 5, mux = 0\<rparr> :: Converter"
  let ?p = "Signal_reset 10 0b1111100000"
  let ?xs = "S7SerdesClocking_refclk (Master ?c) n"
  have k: "clocking master8 = Master ?c" by (simp add: master8_def)
  have lp: "length ?p = 10" by (simp add: Signal_reset_def)
  have len: "length ?xs = 8 * n"
    using refclk_length [of ?c n] by simp
  have nth: "?xs ! i = ?p ! (i mod length ?p)" if "i < length ?xs" for i
    using that refclk_training [of ?c i n] by (simp add: len lp)
  have win: "take 10 (drop i ?xs) = rotate (i mod 10) ?p" if "i + 10 \<le> 8 * n" for i
    using window_rotated [of ?xs ?p i] nth that by (simp add: len lp)
  have aligned: "take 10 (drop (10 * w) ?xs) = ?p" if "10 * w + 10 \<le> 8 * n"
    using win [OF that] by simp
  have pointwise: "?xs ! j = ?p ! (j mod 10)" if "j < 8 * n"
    using nth [of j] that by (simp add: len lp)
  have "S7SerdesClocking_init ''master'' 8 = Inr (Master ?c)"
    using init_clocking_master8 by (simp only: k)
  then show ?thesis
    unfolding k using len pointwise win aligned
    by (simp add: converter_sink_valid_def converter_source_ready_def converter_sink_data_def)
qed

section \<open>The reference clock and the link reset\<close>

lemma refclk_comb: "refclk (S7Serdes_comb s i) = S7SerdesClocking_D (clocking s)"
  by (simp add: S7Serdes_comb_def)

lemma sync_clocking:
  "clocking (S7Serdes_sync s i) =
     (if reset i then S7SerdesClocking_reset (clocking s) else S7SerdesClocking_sync (clocking s))"
  by (simp add: S7Serdes_sync_def ResetInserter_def)

lemma lane_refclk:
  "\<forall>i \<in> set ins. \<not> reset i \<Longrightarrow>
   refclk_stream (S7Serdes_run s ins) = S7SerdesClocking_refclk (clocking s) (length ins)"
proof (induction ins arbitrary: s)
  case Nil
  show ?case by (simp add: refclk_stream_def)
next
  case (Cons i ins)
  from Cons.prems have nr: "\<not> reset i" and rest: "\<forall>i \<in> set ins. \<not> reset i" by simp_all
  have "refclk_stream (S7Serdes_run (S7Serdes_sync s i) ins) =
        S7SerdesClocking_refclk (clocking (S7Serdes_sync s i)) (length ins)"
    using rest by (rule Cons.IH)
  then show ?case using nr by (simp add: refclk_stream_def refclk_comb sync_clocking)
qed

text \<open>Master mode constructs at rates 4 and 8 only: 6 does not divide 40.\<close>

lemma init_master:
  assumes "S7Serdes_init TXD RXD ''master'' rate = Inr s0"
  shows "(rate = 4 \<or> rate = 8) \<and>
         clocking s0 = Master \<lparr>nbits_to = nat rate, ratio = nat (40 div rate), mux = 0\<rparr>"
  using assms
  by (auto simp: S7Serdes_init_def S7SerdesClocking_init_def Converter_init_def
      split: if_splits sum.splits)

lemma sink_data_bits:
  "converter_sink_data =
     [False, False, False, False, False, True, True, True, True, True,
      False, False, False, False, False, True, True, True, True, True,
      False, False, False, False, False, True, True, True, True, True,
      False, False, False, False, False, True, True, True, True, True]"
  unfolding converter_sink_data_def training_bits Replicate_def
  by (simp add: numeral_eq_Suc)

lemma clocking_steps:
  "S7SerdesClocking_sync (Master \<lparr>nbits_to = 8, ratio = 5, mux = 0\<rparr>) =
     Master \<lparr>nbits_to = 8, ratio = 5, mux = Suc 0\<rparr>"
  "S7SerdesClocking_sync (Master \<lparr>nbits_to = 8, ratio = 5, mux = Suc 0\<rparr>) =
     Master \<lparr>nbits_to = 8, ratio = 5, mux = 2\<rparr>"
  "S7SerdesClocking_reset (Master \<lparr>nbits_to = 8, ratio = 5, mux = Suc 0\<rparr>) =
     Master \<lparr>nbits_to = 8, ratio = 5, mux = 0\<rparr>"
  by (simp_all add: sync_Master S7SerdesClocking_reset_def)

lemma clocking_chunks:
  "S7SerdesClocking_D (Master \<lparr>nbits_to = 8, ratio = 5, mux = 0\<rparr>) =
     [False, False, False, False, False, True, True, True]"
  "S7SerdesClocking_D (Master \<lparr>nbits_to = 8, ratio = 5, mux = Suc 0\<rparr>) =
     [True, True, False, False, False, False, False, True]"
  "S7SerdesClocking_D (Master \<lparr>nbits_to = 8, ratio = 5, mux = 2\<rparr>) =
     [True, True, True, True, False, False, False, False]"
  by (simp_all add: S7SerdesClocking_D_def Converter_source_data_def sink_data_bits)

text \<open>
  C5, as stated, fails on the lane: the generator's converter is a submodule of the lane, and
  the lane's reset input clears its position. With the reset asserted in the second of
  three cycles of the master-mode lane at rate 8, the output bits 10 to 19 hold a single 1;
  the pattern has five, and so has each of its rotations.
\<close>

theorem refclk_window_broken_by_reset:
  "S7Serdes_init datapath_built datapath_built ''master'' 8 = Inr master8 \<and>
   take 10 (drop 10 (refclk_stream (S7Serdes_run master8 [no_request, link_reset, no_request]))) =
     [False, False, False, False, False, True, False, False, False, False] \<and>
   count_list [False, False, False, False, False, True, False, False, False, False] True = 1 \<and>
   count_list (Signal_reset 10 0b1111100000) True = 5"
  using init_master8
  by (simp add: refclk_stream_def refclk_comb sync_clocking master8_def no_request_def
      link_reset_def clocking_steps clocking_chunks training_bits)

text \<open>
  C5, amended. In the lane built in master mode at rate 8, the converter is fed with valid
  and ready at 1 and with the 40-bit frame of four copies of the 10-bit signal
  \<open>0b1111100000\<close>. Over any run in which the link reset is never asserted, the serial
  output has 8 bits per cycle and bit \<open>j\<close> of it is bit \<open>j mod 10\<close> of the pattern (the least
  significant bit leaves first, so in the order of time a period is five 0s, then five 1s).
  Hence any 10 consecutive output bits are the pattern rotated by the offset of the window,
  and a window that starts at a multiple of 10 is the pattern itself: nothing but the
  repeated pattern appears.
\<close>

theorem master8_refclk_pattern_without_reset:
  assumes "S7Serdes_init TXD RXD ''master'' 8 = Inr s0" and "\<forall>i \<in> set ins. \<not> reset i"
  shows "converter_sink_valid \<and> converter_source_ready \<and>
         converter_sink_data = Replicate (Signal_reset 10 0b1111100000) 4 \<and>
         length (refclk_stream (S7Serdes_run s0 ins)) = 8 * length ins \<and>
         (j < 8 * length ins \<longrightarrow>
            refclk_stream (S7Serdes_run s0 ins) ! j =
              Signal_reset 10 0b1111100000 ! (j mod 10)) \<and>
         (j + 10 \<le> 8 * length ins \<longrightarrow>
            take 10 (drop j (refclk_stream (S7Serdes_run s0 ins))) =
              rotate (j mod 10) (Signal_reset 10 0b1111100000)) \<and>
         (10 * w + 10 \<le> 8 * length ins \<longrightarrow>
            take 10 (drop (10 * w) (refclk_stream (S7Serdes_run s0 ins))) =
              Signal_reset 10 0b1111100000)"
proof -
  have "clocking s0 = clocking master8"
    using init_master [OF assms(1)] by (simp add: master8_def)
  then have "refclk_stream (S7Serdes_run s0 ins) =
      S7SerdesClocking_refclk (clocking master8) (length ins)"
    using lane_refclk [OF assms(2), of s0] by simp
  then show ?thesis
    using clocking8_refclk_pattern [of "length ins" j w] by simp
qed

text \<open>Five cycles without reset, 40 bits: bit 13 and the windows at offsets 13 and 20.\<close>

theorem master8_refclk_pattern_without_reset_witness:
  "S7Serdes_init datapath_built datapath_built ''master'' 8 = Inr master8 \<and>
   \<not> reset no_request \<and>
   refclk_stream (S7Serdes_run master8
     [no_request, no_request, no_request, no_request, no_request]) ! 13 = False \<and>
   take 10 (drop 13 (refclk_stream (S7Serdes_run master8
     [no_request, no_request, no_request, no_request, no_request]))) =
     [False, False, True, True, True, True, True, False, False, False] \<and>
   take 10 (drop 20 (refclk_stream (S7Serdes_run master8
     [no_request, no_request, no_request, no_request, no_request]))) =
     [False, False, False, False, False, True, True, True, True, True]"
proof -
  let ?ins = "[no_request, no_request, no_request, no_request, no_request]"
  have nr: "\<not> reset no_request" by (simp add: no_request_def)
  then have n: "\<forall>i \<in> set ?ins. \<not> reset i" by simp
  have l: "length ?ins = 5" by simp
  from master8_refclk_pattern_without_reset [OF init_master8 n, of 13 2]
  have "refclk_stream (S7Serdes_run master8 ?ins) ! 13 =
          Signal_reset 10 0b1111100000 ! (13 mod 10)"
    and "take 10 (drop 13 (refclk_stream (S7Serdes_run master8 ?ins))) =
          rotate (13 mod 10) (Signal_reset 10 0b1111100000)"
    and "take 10 (drop (10 * 2) (refclk_stream (S7Serdes_run master8 ?ins))) =
          Signal_reset 10 0b1111100000"
    unfolding l by simp_all
  then have "refclk_stream (S7Serdes_run master8 ?ins) ! 13 = False"
    and "take 10 (drop 13 (refclk_stream (S7Serdes_run master8 ?ins))) =
          [False, False, True, True, True, True, True, False, False, False]"
    and "take 10 (drop 20 (refclk_stream (S7Serdes_run master8 ?ins))) =
          [False, False, False, False, False, True, True, True, True, True]"
    by (simp_all add: training_bits rotate_drop_take)
  with init_master8 nr show ?thesis by blast
qed

text \<open>
  C8, as stated, fails: the decorator resets the registers of every submodule of the lane,
  the position \<open>mux\<close> of the clock generator's converter among them. With the reset
  asserted in the second of three cycles, the third cycle sends the first slice of the frame
  again, and the output has a lone 1 followed by five 0s where the undisturbed output has
  five 1s.
\<close>

theorem link_reset_disturbs_refclk:
  "refclk_stream (S7Serdes_run master8 [no_request, link_reset, no_request]) =
     [False, False, False, False, False, True, True, True,
      True, True, False, False, False, False, False, True,
      False, False, False, False, False, True, True, True] \<and>
   refclk_stream (S7Serdes_run master8 [no_request, no_request, no_request]) =
     [False, False, False, False, False, True, True, True,
      True, True, False, False, False, False, False, True,
      True, True, True, True, False, False, False, False]"
  by (simp add: refclk_stream_def refclk_comb sync_clocking master8_def no_request_def
      link_reset_def clocking_steps clocking_chunks)

text \<open>
  C8, amended. A cycle with the link reset asserted puts the converter of the master-mode
  clock generator back at the first slice of the frame. From the next cycle on, for as long
  as the reset stays low, the serial output is that of a fresh instance: \<open>rate\<close> bits per
  cycle, bit \<open>j\<close> being bit \<open>j mod 10\<close> of the training pattern. So the pattern is emitted
  over every stretch without reset, restarted at each reset, not continued through it.
\<close>

theorem refclk_restarts_at_link_reset:
  assumes "S7Serdes_init TXD RXD ''master'' rate = Inr s0" and "reset r"
    and "\<forall>i \<in> set ins. \<not> reset i"
  shows "clocking (S7Serdes_sync s r) = S7SerdesClocking_reset (clocking s) \<and>
         refclk_stream (S7Serdes_run (S7Serdes_sync (S7Serdes_after s0 pre) r) ins) =
           refclk_stream (S7Serdes_run s0 ins) \<and>
         length (refclk_stream (S7Serdes_run (S7Serdes_sync (S7Serdes_after s0 pre) r) ins)) =
           nat rate * length ins \<and>
         (j < nat rate * length ins \<longrightarrow>
            refclk_stream (S7Serdes_run (S7Serdes_sync (S7Serdes_after s0 pre) r) ins) ! j =
              Signal_reset 10 0b1111100000 ! (j mod 10))"
proof -
  let ?c = "\<lparr>nbits_to = nat rate, ratio = nat (40 div rate), mux = 0\<rparr> :: Converter"
  from init_master [OF assms(1)]
  have rate: "rate = 4 \<or> rate = 8" and k: "clocking s0 = Master ?c"
    by simp_all
  have tiles: "nbits_to ?c * ratio ?c = 40" using rate by auto
  have fresh: "S7Serdes_sync (S7Serdes_after s0 pre) r = s0"
    using assms(1,2) by (rule sync_after_reset)
  have stream:
    "refclk_stream (S7Serdes_run s0 ins) = S7SerdesClocking_refclk (Master ?c) (length ins)"
    using lane_refclk [OF assms(3), of s0] by (simp add: k)
  have len: "length (S7SerdesClocking_refclk (Master ?c) (length ins)) = nat rate * length ins"
    using refclk_length [of ?c "length ins"] tiles rate by auto
  have nth: "S7SerdesClocking_refclk (Master ?c) (length ins) ! j =
      Signal_reset 10 0b1111100000 ! (j mod 10)" if "j < nat rate * length ins"
    using refclk_training [of ?c j "length ins"] tiles that by simp
  show ?thesis
    using assms(2) nth by (simp add: fresh stream len sync_clocking)
qed

theorem refclk_restarts_at_link_reset_witness:
  "S7Serdes_init datapath_built datapath_built ''master'' 8 = Inr master8 \<and> reset link_reset \<and>
   \<not> reset no_request \<and> (16::nat) < nat 8 * length [no_request, no_request, no_request] \<and>
   refclk_stream (S7Serdes_run (S7Serdes_sync (S7Serdes_after master8 [no_request, no_request])
       link_reset) [no_request, no_request, no_request]) ! 16 = True"
proof -
  have r: "reset link_reset" by (simp add: link_reset_def)
  have nr: "\<not> reset no_request" by (simp add: no_request_def)
  then have n: "\<forall>i \<in> set [no_request, no_request, no_request]. \<not> reset i"
    by simp
  have l: "(16::nat) < nat 8 * length [no_request, no_request, no_request]" by simp
  have p: "Signal_reset 10 0b1111100000 ! (16 mod 10) = True" by (simp add: training_bits)
  from refclk_restarts_at_link_reset
    [OF init_master8 r n, where pre = "[no_request, no_request]" and j = 16]
  have "(16::nat) < nat 8 * length [no_request, no_request, no_request] \<longrightarrow>
      refclk_stream (S7Serdes_run (S7Serdes_sync (S7Serdes_after master8 [no_request, no_request])
        link_reset) [no_request, no_request, no_request]) ! 16 =
      Signal_reset 10 0b1111100000 ! (16 mod 10)"
    by blast
  with l p have "refclk_stream (S7Serdes_run (S7Serdes_sync
      (S7Serdes_after master8 [no_request, no_request]) link_reset)
      [no_request, no_request, no_request]) ! 16 = True"
    by (simp only:)
  with init_master8 r nr l show ?thesis by blast
qed

end
